theory Spec2Isabelle
  imports Main
begin

section \<open>The MODFLOW Link-MT3DMS package (flopy/modflow/mflmt.py)\<close>

text \<open>
  The module holds one class, \<open>ModflowLmt\<close>: a handful of settings, a writer that
  prints them one keyword per line, and a loader that reads that layout back.

  Strings are Python 3 \<open>str\<close> values. A \<open>char\<close> stands for one code point in the
  range 0 to 255, so the embedding covers the Latin-1 part of Unicode; the character
  classes and the case mapping below are those of Python 3 on that range. Integers are
  Python's unbounded \<open>int\<close>; the interpreter's limit on the number of digits in a
  conversion between \<open>int\<close> and \<open>str\<close> is not part of the embedding. An
  exception is a value \<open>Inl e\<close> of a sum type. File names follow posixpath, and
  opening or writing a file is taken to succeed.
\<close>

subsection \<open>The string operations the module calls\<close>

text \<open>
  \<open>str.isspace\<close> on one character: the code points 9 to 13, 28 to 32, 133 and 160.
\<close>

definition isspace :: "char \<Rightarrow> bool" where
  "isspace c = (c \<in> set [CHR 0x09, CHR 0x0A, CHR 0x0B, CHR 0x0C, CHR 0x0D,
                          CHR 0x1C, CHR 0x1D, CHR 0x1E, CHR 0x1F, CHR 0x20,
                          CHR 0x85, CHR 0xA0])"

text \<open>
  \<open>str.lower\<close>: A to Z and the upper-case letters 192 to 222 (215, the multiplication
  sign, is not a letter) move up by 32; every other code point below 256 stays.
\<close>

definition lower_char :: "char \<Rightarrow> char" where
  "lower_char c =
     (let n = (of_char c :: nat)
      in if (65 \<le> n \<and> n \<le> 90) \<or> (192 \<le> n \<and> n \<le> 222 \<and> n \<noteq> 215)
         then char_of (n + 32) else c)"

definition lower :: "string \<Rightarrow> string" where
  "lower s = map lower_char s"

text \<open>\<open>str.strip()\<close> without argument removes leading and trailing whitespace.\<close>

definition strip :: "string \<Rightarrow> string" where
  "strip s = rev (dropWhile isspace (rev (dropWhile isspace s)))"

text \<open>
  \<open>str.split()\<close> without argument: the maximal runs of non-whitespace characters,
  in order. \<open>cur\<close> is the run being read.
\<close>

fun split_acc :: "string \<Rightarrow> string \<Rightarrow> string list" where
  "split_acc cur [] = (if cur = [] then [] else [cur])"
| "split_acc cur (c # cs) =
     (if isspace c then (if cur = [] then split_acc [] cs else cur # split_acc [] cs)
      else split_acc (cur @ [c]) cs)"

definition split :: "string \<Rightarrow> string list" where
  "split s = split_acc [] s"

text \<open>
  \<open>str.rfind(c)\<close> for a one-character needle: the index of the last occurrence, or
  \<open>-1\<close> when there is none.
\<close>

definition rfind :: "string \<Rightarrow> char \<Rightarrow> int" where
  "rfind s c =
     (if c \<in> set s
      then int (length s) - 1 - int (length (takeWhile (\<lambda>x. x \<noteq> c) (rev s)))
      else - 1)"

text \<open>
  The slices \<open>s[:k]\<close> and \<open>s[i:]\<close>: a negative bound counts from the end, and bounds
  outside the string are clamped.
\<close>

definition slice_to :: "int \<Rightarrow> 'a list \<Rightarrow> 'a list" where
  "slice_to k s = (if k < 0 then take (nat (int (length s) + k)) s else take (nat k) s)"

definition slice_from :: "int \<Rightarrow> 'a list \<Rightarrow> 'a list" where
  "slice_from i s = (if i < 0 then drop (nat (int (length s) + i)) s else drop (nat i) s)"

text \<open>\<open>os.path.basename\<close> of posixpath: \<open>i = p.rfind('/') + 1; return p[i:]\<close>.\<close>

definition basename :: "string \<Rightarrow> string" where
  "basename p = slice_from (rfind p (CHR ''/'') + 1) p"

text \<open>
  The format specifications of \<open>write_file\<close>: \<open>{:20s}\<close> pads a string on the right
  to 20 characters, \<open>{:10d}\<close> prints an integer in decimal and pads it on the left
  to 10 characters. Neither truncates.
\<close>

definition ljust :: "nat \<Rightarrow> string \<Rightarrow> string" where
  "ljust w s = s @ replicate (w - length s) (CHR '' '')"

definition rjust :: "nat \<Rightarrow> string \<Rightarrow> string" where
  "rjust w s = replicate (w - length s) (CHR '' '') @ s"

definition digit_char :: "nat \<Rightarrow> char" where
  "digit_char d = char_of (48 + d)"

fun digits_of :: "nat \<Rightarrow> string" where
  "digits_of n =
     (if n < 10 then [digit_char n] else digits_of (n div 10) @ [digit_char (n mod 10)])"

declare digits_of.simps [simp del]

definition str_int :: "int \<Rightarrow> string" where
  "str_int n = (if n < 0 then CHR ''-'' # digits_of (nat (- n)) else digits_of (nat n))"

definition format_20s :: "string \<Rightarrow> string" where
  "format_20s s = ljust 20 s"

definition format_10d :: "int \<Rightarrow> string" where
  "format_10d n = rjust 10 (str_int n)"

text \<open>
  \<open>int(s)\<close> on a string, base ten: surrounding whitespace is dropped, one sign is
  allowed, then decimal digits, where single underscores may stand between two digits.
  Anything else raises ValueError, here \<open>None\<close>.
\<close>

definition isdigit :: "char \<Rightarrow> bool" where
  "isdigit c = (48 \<le> (of_char c :: nat) \<and> (of_char c :: nat) \<le> 57)"

definition digit_val :: "char \<Rightarrow> int" where
  "digit_val c = int (of_char c) - 48"

fun digits_val :: "int \<Rightarrow> string \<Rightarrow> int option" where
  "digits_val acc [] = Some acc"
| "digits_val acc [c] = (if isdigit c then Some (10 * acc + digit_val c) else None)"
| "digits_val acc (c # d # cs) =
     (if isdigit c then digits_val (10 * acc + digit_val c) (d # cs)
      else if c = CHR ''_'' \<and> isdigit d then digits_val (10 * acc + digit_val d) cs
      else None)"

definition unsigned_int :: "string \<Rightarrow> int option" where
  "unsigned_int s =
     (case s of [] \<Rightarrow> None
      | c # cs \<Rightarrow> if isdigit c then digits_val (digit_val c) cs else None)"

definition py_int :: "string \<Rightarrow> int option" where
  "py_int s =
     (case strip s of [] \<Rightarrow> None
      | c # cs \<Rightarrow>
          if c = CHR ''-'' then map_option uminus (unsigned_int cs)
          else if c = CHR ''+'' then unsigned_int cs
          else unsigned_int (c # cs))"

text \<open>
  Reading a text file opened with \<open>open(filename, 'r')\<close>: the line ends \<open>\r\n\<close> and
  \<open>\r\<close> are read as \<open>\n\<close>, and iterating the file gives the lines with their
  terminating \<open>\n\<close>; a last line without terminator is given as it is. No line is empty.
\<close>

fun universal_newlines :: "string \<Rightarrow> string" where
  "universal_newlines [] = []"
| "universal_newlines [c] = (if c = CHR 0x0D then [CHR 0x0A] else [c])"
| "universal_newlines (c # d # cs) =
     (if c = CHR 0x0D \<and> d = CHR 0x0A then CHR 0x0A # universal_newlines cs
      else if c = CHR 0x0D then CHR 0x0A # universal_newlines (d # cs)
      else c # universal_newlines (d # cs))"

fun lines_acc :: "string \<Rightarrow> string \<Rightarrow> string list" where
  "lines_acc cur [] = (if cur = [] then [] else [cur])"
| "lines_acc cur (c # cs) =
     (if c = CHR 0x0A then (cur @ [c]) # lines_acc [] cs else lines_acc (cur @ [c]) cs)"

definition file_lines :: "string \<Rightarrow> string list" where
  "file_lines text = lines_acc [] (universal_newlines text)"

subsection \<open>The class\<close>

datatype error = ValueError | IndexError

text \<open>
  The five settings are the attributes \<open>__init__\<close> stores and the local variables
  \<open>load\<close> fills; the object carries, besides them, what \<open>__init__\<close> hands to the
  Package base class and the heading it composes.

  Modelled from the spec: \<open>Package.__init__\<close> (flopy/pakbase.py) keeps the name list,
  the unit numbers, the extra entries, the file names and the extension it is given.
\<close>

record lmt_values =
  output_file_name :: string
  output_file_unit :: int
  output_file_header :: string
  output_file_format :: string
  package_flows :: "string list"

record ModflowLmt = lmt_values +
  name :: "string list"
  unit_number :: "int list"
  extra :: "string list"
  file_name :: "string option list"
  extension :: string
  heading :: string
  url :: string

definition ftype :: string where
  "ftype = ''LMT6''"

definition defaultunit :: int where
  "defaultunit = 30"

text \<open>The \<open>filenames\<close> argument is \<open>None\<close>, one string, or a list.\<close>

datatype filenames_arg = NoFilenames | OneFilename string | Filenames "string option list"

text \<open>
  \<open>__init__\<close>. The parameter \<open>version_type\<close> is \<open>model.version_types[model.version]\<close>,
  the label of the owning model, whose class is not part of the module. Registering
  the package with the model (\<open>add_package\<close>) changes the model only and is left out.
  \<open>filenames[0]\<close> raises IndexError on an empty list.
\<close>

definition ModflowLmt_init ::
  "string \<Rightarrow> string \<Rightarrow> int \<Rightarrow> string \<Rightarrow> string \<Rightarrow> string \<Rightarrow> string list \<Rightarrow>
   int option \<Rightarrow> filenames_arg \<Rightarrow> error + ModflowLmt" where
  "ModflowLmt_init version_type ofn ofu ofh off ext pf unitnumber filenames =
     (let unitnumber' = (case unitnumber of None \<Rightarrow> defaultunit | Some u \<Rightarrow> u);
          filenames' = (case filenames of
                          NoFilenames \<Rightarrow> [None]
                        | OneFilename s \<Rightarrow> [Some s]
                        | Filenames l \<Rightarrow> l);
          name' = [ftype];
          units = [unitnumber'];
          extra' = ['''']
      in case filenames' of
           [] \<Rightarrow> Inl IndexError
         | f0 # _ \<Rightarrow>
             Inr \<lparr> output_file_name = ofn,
                   output_file_unit = ofu,
                   output_file_header = ofh,
                   output_file_format = off,
                   package_flows = pf,
                   name = name',
                   unit_number = units,
                   extra = extra',
                   file_name = [f0],
                   extension = ext,
                   heading = ''# '' @ hd name' @ '' package for '' @
                             '' '' @ version_type @ '', '' @ ''generated by Flopy.'',
                   url = ''lmt.htm'' \<rparr>)"

text \<open>
  The default of the parameter \<open>package_flows\<close> is one list object, made when the
  \<open>def\<close> statement of \<open>__init__\<close> runs, and \<open>__init__\<close> stores its parameter
  without copying it (\<open>self.package_flows = package_flows\<close>). So every object built
  without this parameter has that one list as its \<open>package_flows\<close>, and the content of
  the list is state that outlives the call. The store holds the content of list
  objects by address; \<open>default_package_flows\<close> is the address of the default list,
  empty in the store the class starts with, and \<open>list_append\<close> is \<open>append\<close> on the
  list at an address, the store's other lists unchanged.
\<close>

type_synonym store = "nat \<Rightarrow> string list"

definition default_package_flows :: nat where
  "default_package_flows = 0"

definition initial_store :: store where
  "initial_store = (\<lambda>a. [])"

definition list_append :: "store \<Rightarrow> nat \<Rightarrow> string \<Rightarrow> store" where
  "list_append st a x = st(a := st a @ [x])"

text \<open>
  The call with the owning model only, in a store: every other parameter at its
  default, the package flows being the list at \<open>default_package_flows\<close> as the store
  has it at the time of the call. For an object \<open>a\<close> built this way
  \<open>a.package_flows.append(x)\<close> is \<open>list_append\<close> at that address.
\<close>

definition ModflowLmt_default :: "store \<Rightarrow> string \<Rightarrow> error + ModflowLmt" where
  "ModflowLmt_default st version_type =
     ModflowLmt_init version_type ''mt3d_link.ftl'' 54 ''extended'' ''unformatted''
       ''lmt6'' (st default_package_flows) None NoFilenames"

text \<open>
  \<open>write_file\<close>. \<open>pckgs\<close> is the string put together by the three membership
  tests. \<open>write_calls\<close> lists the strings of the successive \<open>f.write\<close> calls, one
  line each; the text of the package file is their concatenation.
\<close>

definition pckgs :: "string list \<Rightarrow> string" where
  "pckgs pf =
     (if ''sfr'' \<in> set (map lower pf) then ''SFR '' else []) @
     (if ''lak'' \<in> set (map lower pf) then ''LAK '' else []) @
     (if ''uzf'' \<in> set (map lower pf) then ''UZF '' else [])"

definition write_calls :: "ModflowLmt \<Rightarrow> string list" where
  "write_calls self =
     [heading self @ [CHR 0x0A],
      format_20s (''OUTPUT_FILE_NAME '' @ output_file_name self) @ [CHR 0x0A],
      format_20s ''OUTPUT_FILE_UNIT '' @ '' '' @ format_10d (output_file_unit self) @ [CHR 0x0A],
      format_20s (''OUTPUT_FILE_HEADER '' @ output_file_header self) @ [CHR 0x0A],
      format_20s (''OUTPUT_FILE_FORMAT '' @ output_file_format self) @ [CHR 0x0A]] @
     (if package_flows self \<noteq> []
      then [(''PACKAGE_FLOWS '' @ pckgs (package_flows self)) @ [CHR 0x0A]]
      else [])"

definition write_file :: "ModflowLmt \<Rightarrow> string" where
  "write_file self = concat (write_calls self)"

text \<open>
  The body of the loop of \<open>load\<close>, on one line and the five variables. \<open>line[0]\<close>
  raises IndexError on an empty line, \<open>int(t[1])\<close> raises ValueError.
\<close>

definition load_line :: "lmt_values \<Rightarrow> string \<Rightarrow> error + lmt_values" where
  "load_line v line =
     (if line = [] then Inl IndexError
      else if hd line = CHR ''#'' then Inr v
      else
        let t = split (strip line)
        in if length t < 2 then Inr v
           else if lower (t ! 0) = ''output_file_name''
             then Inr (v\<lparr>output_file_name := t ! 1\<rparr>)
           else if lower (t ! 0) = ''output_file_unit''
             then (case py_int (t ! 1) of
                     None \<Rightarrow> Inl ValueError
                   | Some n \<Rightarrow> Inr (v\<lparr>output_file_unit := n\<rparr>))
           else if lower (t ! 0) = ''output_file_header''
             then Inr (v\<lparr>output_file_header := t ! 1\<rparr>)
           else if lower (t ! 0) = ''output_file_format''
             then Inr (v\<lparr>output_file_format := t ! 1\<rparr>)
           else if lower (t ! 0) = ''package_flows''
             then (if length t > 1
                   then Inr (v\<lparr>package_flows :=
                               package_flows v @ map (\<lambda>i. t ! i) [1..<length t]\<rparr>)
                   else Inr v)
           else Inr v)"

fun load_lines :: "lmt_values \<Rightarrow> string list \<Rightarrow> error + lmt_values" where
  "load_lines v [] = Inr v"
| "load_lines v (line # rest) =
     (case load_line v line of Inl e \<Rightarrow> Inl e | Inr v' \<Rightarrow> load_lines v' rest)"

text \<open>The default values \<open>load\<close> starts from, for the file name \<open>f\<close>.\<close>

definition load_defaults :: "string \<Rightarrow> lmt_values" where
  "load_defaults f =
     (let prefix = basename f;
          prefix = slice_to (rfind prefix (CHR ''.'')) prefix
      in \<lparr> output_file_name = prefix @ ''.ftl'',
            output_file_unit = 333,
            output_file_header = ''standard'',
            output_file_format = ''unformatted'',
            package_flows = [] \<rparr>)"

text \<open>
  \<open>load\<close>, for a file name \<open>f\<close> and the text of that file. \<open>ext_attr\<close> is \<open>None\<close>
  when no \<open>ext_unit_dict\<close> is given and otherwise the pair that
  \<open>model.get_ext_dict_attr\<close> returns. The notice printed for a verbose model is no
  part of the result and is left out.
\<close>

definition load ::
  "string \<Rightarrow> string \<Rightarrow> string \<Rightarrow> (int option \<times> string option) option \<Rightarrow>
   error + ModflowLmt" where
  "load f text version_type ext_attr =
     (case load_lines (load_defaults f) (file_lines text) of
        Inl e \<Rightarrow> Inl e
      | Inr v \<Rightarrow>
          let (unitnumber, filenames) =
                (case ext_attr of
                   None \<Rightarrow> (None, [None])
                 | Some (u, fn) \<Rightarrow> (u, [fn]))
          in ModflowLmt_init version_type (output_file_name v) (output_file_unit v)
               (output_file_header v) (output_file_format v) ''lmt6'' (package_flows v)
               unitnumber (Filenames filenames))"

subsection \<open>Notions the properties are stated with\<close>

text \<open>The tokens of a line, as the loop body computes them.\<close>

definition tokens :: "string \<Rightarrow> string list" where
  "tokens line = split (strip line)"

text \<open>
  A line that reaches the keyword tests with first token \<open>k\<close> (lower case): it is not
  empty, not a comment, and has two tokens or more.
\<close>

definition key_line :: "string \<Rightarrow> string \<Rightarrow> bool" where
  "key_line k line =
     (line \<noteq> [] \<and> hd line \<noteq> CHR ''#'' \<and> 2 \<le> length (tokens line) \<and>
      lower (tokens line ! 0) = k)"


text \<open>What a line adds to the package flows: every token after a \<open>package_flows\<close> keyword.\<close>

definition flows_of :: "string \<Rightarrow> string list" where
  "flows_of line = (if key_line ''package_flows'' line then tl (tokens line) else [])"

text \<open>
  A line whose first token is the unit keyword, in any case, and whose second token
  \<open>int\<close> does not accept.
\<close>

definition malformed_unit_line :: "string \<Rightarrow> bool" where
  "malformed_unit_line line =
     (2 \<le> length (tokens line) \<and> lower (tokens line ! 0) = ''output_file_unit'' \<and>
      py_int (tokens line ! 1) = None)"

text \<open>A single token: not empty and free of whitespace.\<close>

definition is_token :: "string \<Rightarrow> bool" where
  "is_token s = (s \<noteq> [] \<and> list_all (\<lambda>c. \<not> isspace c) s)"

text \<open>A heading that is one comment line: it starts with \<open>#\<close> and holds no line end.\<close>

definition comment_line :: "string \<Rightarrow> bool" where
  "comment_line h =
     (case h of [] \<Rightarrow> False
      | c # cs \<Rightarrow> c = CHR ''#'' \<and> list_all (\<lambda>x. x \<noteq> CHR 0x0A \<and> x \<noteq> CHR 0x0D) cs)"

text \<open>
  The package flows in canonical form, after the words of the specification: the
  recognised members present in the list, compared without regard to case, in upper
  case and in the fixed order SFR, LAK, UZF.
\<close>

definition canonical_flows :: "string list \<Rightarrow> string list" where
  "canonical_flows pf = filter (\<lambda>k. lower k \<in> set (map lower pf)) [''SFR'', ''LAK'', ''UZF'']"

text \<open>
  The default output file name after the words of the specification: the base name of
  the file name with its extension, the part from the last dot on, replaced by
  \<open>.ftl\<close>. A base name without a dot has no extension to replace.
\<close>

definition spec_default_name :: "string \<Rightarrow> string" where
  "spec_default_name f =
     (let b = basename f
      in (if CHR ''.'' \<in> set b then take (nat (rfind b (CHR ''.''))) b else b) @ ''.ftl'')"

text \<open>
  An object to try the properties on: what \<open>__init__\<close> builds for a MODFLOW-2005
  model from the defaults and the given package flows.
\<close>

definition default_with_flows :: "string list \<Rightarrow> ModflowLmt" where
  "default_with_flows pf =
     \<lparr> output_file_name = ''mt3d_link.ftl'',
       output_file_unit = 54,
       output_file_header = ''extended'',
       output_file_format = ''unformatted'',
       package_flows = pf,
       name = [''LMT6''],
       unit_number = [30],
       extra = [''''],
       file_name = [None],
       extension = ''lmt6'',
       heading = ''# LMT6 package for  MODFLOW-2005, generated by Flopy.'',
       url = ''lmt.htm'' \<rparr>"

section \<open>Properties\<close>

subsection \<open>Splitting, stripping and integers\<close>

lemma split_acc_nospace:
  "\<forall>c\<in>set t. \<not> isspace c \<Longrightarrow> split_acc cur (t @ rest) = split_acc (cur @ t) rest"
  by (induction t arbitrary: cur) auto

lemma split_acc_spaces_only:
  "\<forall>c\<in>set w. isspace c \<Longrightarrow> split_acc cur w = (if cur = [] then [] else [cur])"
  by (induction w arbitrary: cur) auto

lemma split_acc_leading:
  "\<forall>c\<in>set w. isspace c \<Longrightarrow> split_acc [] (w @ rest) = split_acc [] rest"
  by (induction w) auto

lemma split_acc_trailing:
  "\<forall>c\<in>set w. isspace c \<Longrightarrow> split_acc cur (s @ w) = split_acc cur s"
  by (induction s arbitrary: cur) (auto simp: split_acc_spaces_only)

lemma split_acc_token:
  assumes "\<forall>c\<in>set t. \<not> isspace c" and "t \<noteq> []" and "isspace d"
  shows "split_acc [] (t @ d # rest) = t # split_acc [] rest"
  using assms by (simp add: split_acc_nospace)

lemma split_dropWhile: "split_acc [] (dropWhile isspace s) = split_acc [] s"
  by (induction s) auto

lemma split_strip: "split (strip s) = split s"
proof -
  let ?d = "dropWhile isspace s"
  have "?d = rev (dropWhile isspace (rev ?d)) @ rev (takeWhile isspace (rev ?d))"
    by (metis rev_append rev_rev_ident takeWhile_dropWhile_id)
  moreover have "\<forall>c\<in>set (rev (takeWhile isspace (rev ?d))). isspace c"
    by (auto dest: set_takeWhileD)
  ultimately have "split_acc [] ?d = split_acc [] (rev (dropWhile isspace (rev ?d)))"
    by (metis split_acc_trailing)
  then show ?thesis by (simp add: split_def strip_def split_dropWhile)
qed

lemma strip_id:
  assumes "\<forall>c\<in>set s. \<not> isspace c"
  shows "strip s = s"
proof -
  have a: "dropWhile isspace s = s" using assms by (cases s) auto
  have b: "dropWhile isspace (rev s) = rev s" using assms by (cases s rule: rev_cases) auto
  show ?thesis by (simp add: strip_def a b)
qed

lemma map_nth_tl: "map (\<lambda>i. t ! i) [1..<length t] = tl t"
  by (rule nth_equalityI) (auto simp: nth_tl)

lemma isdigit_digit_char: "d < 10 \<Longrightarrow> isdigit (digit_char d)"
  by (simp add: isdigit_def digit_char_def)

lemma digit_val_digit_char: "d < 10 \<Longrightarrow> digit_val (digit_char d) = int d"
  by (simp add: digit_val_def digit_char_def)

lemma digits_of_digits: "\<forall>c\<in>set (digits_of n). isdigit c"
  by (induction n rule: digits_of.induct) (subst digits_of.simps, auto simp: isdigit_digit_char)

lemma digits_of_nonempty: "digits_of n \<noteq> []"
  by (subst digits_of.simps) simp

lemma digits_val_snoc:
  "\<forall>c\<in>set ds. isdigit c \<Longrightarrow> isdigit d \<Longrightarrow>
   digits_val acc (ds @ [d]) = map_option (\<lambda>v. 10 * v + digit_val d) (digits_val acc ds)"
  by (induction acc ds rule: digits_val.induct) auto

lemma digits_val_digits_of:
  "digits_val 0 (digits_of n) = Some (int n)"
proof (induction n rule: digits_of.induct)
  case (1 n)
  show ?case
  proof (cases "n < 10")
    case True
    then show ?thesis by (subst digits_of.simps) (simp add: isdigit_digit_char digit_val_digit_char)
  next
    case False
    then have "digits_val 0 (digits_of (n div 10)) = Some (int (n div 10))" using 1 by simp
    moreover have "int n = int (10 * (n div 10) + n mod 10)" by simp
    then have "10 * int (n div 10) + int (n mod 10) = int n"
      by (simp only: of_nat_add of_nat_mult of_nat_numeral)
    ultimately show ?thesis using False
      by (subst digits_of.simps)
         (simp add: digits_val_snoc digits_of_digits isdigit_digit_char digit_val_digit_char)
  qed
qed

lemma unsigned_int_digits_of: "unsigned_int (digits_of n) = Some (int n)"
proof -
  obtain c cs where cs: "digits_of n = c # cs"
    using digits_of_nonempty by (cases "digits_of n") auto
  then have "isdigit c" using digits_of_digits[of n] by simp
  have "digits_val 0 (c # cs) = digits_val (digit_val c) cs"
    using \<open>isdigit c\<close> by (cases cs) auto
  then show ?thesis using cs \<open>isdigit c\<close> digits_val_digits_of[of n]
    by (simp add: unsigned_int_def)
qed

lemma isdigit_not_space: "isdigit c \<Longrightarrow> \<not> isspace c"
  by (auto simp: isdigit_def isspace_def)

lemma digits_of_nospace: "\<forall>c\<in>set (digits_of m). \<not> isspace c"
  using digits_of_digits isdigit_not_space by blast

lemma str_int_nospace: "\<forall>c\<in>set (str_int n). \<not> isspace c"
proof -
  have "\<not> isspace (CHR ''-'')" by (simp add: isspace_def)
  then show ?thesis using digits_of_nospace by (simp add: str_int_def)
qed

lemma str_int_nonempty: "str_int n \<noteq> []"
  by (simp add: str_int_def digits_of_nonempty)

lemma py_int_str_int: "py_int (str_int n) = Some n"
proof (cases "n < 0")
  case True
  then show ?thesis
    by (simp add: py_int_def strip_id[OF str_int_nospace] unsigned_int_digits_of)
       (simp add: str_int_def unsigned_int_digits_of)
next
  case False
  obtain c cs where cs: "digits_of (nat n) = c # cs"
    using digits_of_nonempty by (cases "digits_of (nat n)") auto
  then have "isdigit c" using digits_of_digits[of "nat n"] by simp
  then have "c \<noteq> CHR ''-''" "c \<noteq> CHR ''+''" by (auto simp: isdigit_def)
  with False cs show ?thesis
    using unsigned_int_digits_of[of "nat n"] strip_id[OF str_int_nospace, of n]
    by (simp add: py_int_def str_int_def)
qed

subsection \<open>The loop body, branch by branch\<close>

lemma map_nth_tl_Suc: "map (\<lambda>i. t ! i) [Suc 0..<length t] = tl t"
  using map_nth_tl[of t] by simp

lemma takeWhile_shorter:
  assumes "x \<in> set xs" and "\<not> P x"
  shows "length (takeWhile P xs) < length xs"
proof -
  have "takeWhile P xs \<noteq> xs" using assms by auto
  then have "length (takeWhile P xs) \<noteq> length xs"
    by (metis takeWhile_eq_take take_all order_refl)
  then show ?thesis using length_takeWhile_le[of P xs] by simp
qed

lemma rfind_some: "c \<in> set s \<Longrightarrow> 0 \<le> rfind s c \<and> rfind s c < int (length s)"
  using takeWhile_shorter[of c "rev s" "\<lambda>x. x \<noteq> c"] by (simp add: rfind_def)

lemma load_defaults_with_extension:
  "CHR ''.'' \<in> set (basename f) \<Longrightarrow> output_file_name (load_defaults f) = spec_default_name f"
  using rfind_some[of "CHR ''.''" "basename f"]
  by (simp add: load_defaults_def spec_default_name_def slice_to_def Let_def)

lemma load_line_comment: "load_line v (CHR ''#'' # cs) = Inr v"
  by (simp add: load_line_def)

lemma load_line_comment_hd: "line \<noteq> [] \<Longrightarrow> hd line = CHR ''#'' \<Longrightarrow> load_line v line = Inr v"
  by (simp add: load_line_def)

lemma load_line_short: "line \<noteq> [] \<Longrightarrow> length (tokens line) < 2 \<Longrightarrow> load_line v line = Inr v"
  by (simp add: load_line_def tokens_def Let_def)


lemma load_line_name:
  "key_line ''output_file_name'' line \<Longrightarrow>
   load_line v line = Inr (v\<lparr>output_file_name := tokens line ! 1\<rparr>)"
  by (simp add: load_line_def key_line_def tokens_def Let_def)

lemma load_line_unit:
  "key_line ''output_file_unit'' line \<Longrightarrow>
   load_line v line =
     (case py_int (tokens line ! 1) of
        None \<Rightarrow> Inl ValueError
      | Some n \<Rightarrow> Inr (v\<lparr>output_file_unit := n\<rparr>))"
  by (simp add: load_line_def key_line_def tokens_def Let_def)

lemma load_line_header:
  "key_line ''output_file_header'' line \<Longrightarrow>
   load_line v line = Inr (v\<lparr>output_file_header := tokens line ! 1\<rparr>)"
  by (simp add: load_line_def key_line_def tokens_def Let_def)

lemma load_line_format:
  "key_line ''output_file_format'' line \<Longrightarrow>
   load_line v line = Inr (v\<lparr>output_file_format := tokens line ! 1\<rparr>)"
  by (simp add: load_line_def key_line_def tokens_def Let_def)

lemma load_line_flows:
  "key_line ''package_flows'' line \<Longrightarrow>
   load_line v line = Inr (v\<lparr>package_flows := package_flows v @ tl (tokens line)\<rparr>)"
  by (simp add: load_line_def key_line_def tokens_def Let_def map_nth_tl_Suc)

subsection \<open>Constants, default construction and the loop body\<close>

text \<open>
  C8. The file type tag is the constant string LMT6 and the default unit is the
  constant integer 30. Both are static methods without parameters, so they are
  constants of the embedding: they take no instance and no state.
\<close>

theorem ftype_defaultunit_constants:
  "ftype = ''LMT6'' \<and> defaultunit = 30"
  by (simp add: ftype_def defaultunit_def)

text \<open>
  Constructing the package with the owning model only gives the output file name
  mt3d_link.ftl, output unit 54, header extended, format unformatted and the unit
  number 30 in every store, whatever the model's version label; the package flows are
  what the default list holds, none as long as that list is empty.
\<close>

lemma default_construction_in_store:
  "\<exists>c. ModflowLmt_default st version_type = Inr c \<and>
       output_file_name c = ''mt3d_link.ftl'' \<and> output_file_unit c = 54 \<and>
       output_file_header c = ''extended'' \<and> output_file_format c = ''unformatted'' \<and>
       package_flows c = st default_package_flows \<and> unit_number c = [30]"
  by (simp add: ModflowLmt_default_def ModflowLmt_init_def defaultunit_def)

lemma default_construction_empty_default:
  "st default_package_flows = [] \<Longrightarrow>
   \<exists>c. ModflowLmt_default st version_type = Inr c \<and>
       output_file_name c = ''mt3d_link.ftl'' \<and> output_file_unit c = 54 \<and>
       output_file_header c = ''extended'' \<and> output_file_format c = ''unformatted'' \<and>
       package_flows c = [] \<and> unit_number c = [30]"
  using default_construction_in_store[of st version_type] by simp

text \<open>
  C5. The specification, like the docstring of the class, has a package built with
  the owning model only carry no package flows, besides the output file name
  mt3d_link.ftl, output unit 54, header extended, format unformatted and unit number
  30. The first such object, built in the store the class starts with, is so. After
  \<open>a.package_flows.append('sfr')\<close> on that object the shared default list holds
  \<open>sfr\<close>, and the next package built with its model only has the package flows
  \<open>['sfr']\<close>; its other settings are the defaults.
\<close>

theorem default_construction_shares_flows:
  "\<exists>a b. ModflowLmt_default initial_store version_type = Inr a \<and>
         package_flows a = [] \<and>
         ModflowLmt_default (list_append initial_store default_package_flows ''sfr'')
           version_type' = Inr b \<and>
         output_file_name b = ''mt3d_link.ftl'' \<and> output_file_unit b = 54 \<and>
         output_file_header b = ''extended'' \<and> output_file_format b = ''unformatted'' \<and>
         unit_number b = [30] \<and>
         package_flows b = [''sfr'']"
  by (simp add: ModflowLmt_default_def ModflowLmt_init_def defaultunit_def
        initial_store_def list_append_def)




subsection \<open>Lines of a file\<close>

lemma universal_newlines_id: "CHR 0x0D \<notin> set t \<Longrightarrow> universal_newlines t = t"
  by (induction t rule: universal_newlines.induct) auto

lemma lines_acc_line:
  "CHR 0x0A \<notin> set l \<Longrightarrow> lines_acc cur (l @ CHR 0x0A # rest) = (cur @ l @ [CHR 0x0A]) # lines_acc [] rest"
  by (induction l arbitrary: cur) auto

lemma lines_acc_nonempty: "l \<in> set (lines_acc cur t) \<Longrightarrow> l \<noteq> []"
  by (induction t arbitrary: cur) (auto split: if_splits)

lemma file_lines_nonempty: "l \<in> set (file_lines text) \<Longrightarrow> l \<noteq> []"
  unfolding file_lines_def by (rule lines_acc_nonempty)

subsection \<open>From the loop to the result of load\<close>

lemma load_lines_append:
  "load_lines v (xs @ ys) =
     (case load_lines v xs of Inl e \<Rightarrow> Inl e | Inr v' \<Rightarrow> load_lines v' ys)"
  by (induction xs arbitrary: v) (auto split: sum.splits)

lemma load_error:
  "load_lines (load_defaults f) (file_lines text) = Inl e \<Longrightarrow> load f text vt ext = Inl e"
  by (simp add: load_def)

lemma load_result:
  assumes "load_lines (load_defaults f) (file_lines text) = Inr v"
  shows "\<exists>c. load f text vt ext = Inr c \<and>
             output_file_name c = output_file_name v \<and>
             output_file_unit c = output_file_unit v \<and>
             output_file_header c = output_file_header v \<and>
             output_file_format c = output_file_format v \<and>
             package_flows c = package_flows v"
  using assms by (cases ext) (auto simp: load_def ModflowLmt_init_def)

lemma load_cases:
  obtains (error) e where "load_lines (load_defaults f) (file_lines text) = Inl e"
                      and "load f text vt ext = Inl e"
  | (result) v c where "load_lines (load_defaults f) (file_lines text) = Inr v"
        and "load f text vt ext = Inr c"
        and "output_file_name c = output_file_name v"
        and "output_file_unit c = output_file_unit v"
        and "output_file_header c = output_file_header v"
        and "output_file_format c = output_file_format v"
        and "package_flows c = package_flows v"
proof (cases "load_lines (load_defaults f) (file_lines text)")
  case (Inl e)
  then show ?thesis using error load_error by blast
next
  case (Inr v)
  then show ?thesis using result load_result[OF Inr, of vt ext] by blast
qed

subsection \<open>Where the loop fails\<close>

lemma split_acc_prefix:
  "cur \<noteq> [] \<Longrightarrow> \<exists>t ts. split_acc cur s = (cur @ t) # ts"
proof (induction s arbitrary: cur)
  case Nil
  then show ?case by simp
next
  case (Cons c s)
  show ?case
  proof (cases "isspace c")
    case True
    then show ?thesis using Cons.prems by simp
  next
    case False
    obtain t ts where "split_acc (cur @ [c]) s = ((cur @ [c]) @ t) # ts"
      using Cons.IH[of "cur @ [c]"] by auto
    then have "split_acc cur (c # s) = (cur @ (c # t)) # ts" using False by simp
    then show ?thesis by blast
  qed
qed

lemma lower_hash: "lower_char (CHR ''#'') = CHR ''#''"
  by (simp add: lower_char_def)

lemma comment_first_token:
  assumes "2 \<le> length (tokens (CHR ''#'' # cs))"
  shows "hd (lower (tokens (CHR ''#'' # cs) ! 0)) = CHR ''#''"
proof -
  have "\<not> isspace (CHR ''#'')" by (simp add: isspace_def)
  then have "tokens (CHR ''#'' # cs) = split_acc [CHR ''#''] cs"
    unfolding tokens_def split_strip by (simp add: split_def)
  moreover obtain t ts where "split_acc [CHR ''#''] cs = ([CHR ''#''] @ t) # ts"
    using split_acc_prefix[of "[CHR ''#'']" cs] by auto
  ultimately show ?thesis by (simp add: lower_def lower_hash)
qed

lemma malformed_not_comment:
  assumes "malformed_unit_line line" and "line \<noteq> []"
  shows "hd line \<noteq> CHR ''#''"
proof
  assume h: "hd line = CHR ''#''"
  then obtain cs where l: "line = CHR ''#'' # cs" using assms(2) by (cases line) auto
  have "2 \<le> length (tokens line)" "lower (tokens line ! 0) = ''output_file_unit''"
    using assms(1) by (simp_all add: malformed_unit_line_def)
  then have "hd ''output_file_unit'' = CHR ''#''" using comment_first_token[of cs] l by simp
  then show False by simp
qed

lemma malformed_key_line:
  "line \<noteq> [] \<Longrightarrow> malformed_unit_line line =
     (key_line ''output_file_unit'' line \<and> py_int (tokens line ! 1) = None)"
  using malformed_not_comment[of line]
  by (auto simp: malformed_unit_line_def key_line_def)

lemma load_line_error_iff:
  assumes "line \<noteq> []"
  shows "(load_line v line = Inl e) = (e = ValueError \<and> malformed_unit_line line)"
proof (cases "key_line ''output_file_unit'' line")
  case True
  then show ?thesis
    using assms by (auto simp: load_line_unit malformed_key_line split: option.splits)
next
  case False
  then have "\<not> malformed_unit_line line" using assms by (simp add: malformed_key_line)
  moreover have "load_line v line \<noteq> Inl e"
    using False assms
    by (auto simp: load_line_def key_line_def tokens_def Let_def split: option.splits)
  ultimately show ?thesis by simp
qed

lemma load_lines_error_iff:
  "\<forall>l\<in>set ls. l \<noteq> [] \<Longrightarrow>
   (load_lines v ls = Inl e) = (e = ValueError \<and> (\<exists>l\<in>set ls. malformed_unit_line l))"
proof (induction ls arbitrary: v)
  case Nil
  then show ?case by simp
next
  case (Cons l ls)
  then have ne: "l \<noteq> []" and rest: "\<forall>l\<in>set ls. l \<noteq> []" by simp_all
  show ?case
  proof (cases "load_line v l")
    case (Inl e')
    then have "e' = ValueError \<and> malformed_unit_line l"
      using load_line_error_iff[OF ne, of v e'] by simp
    then show ?thesis using Inl by auto
  next
    case (Inr v')
    then have "\<not> malformed_unit_line l"
      using load_line_error_iff[OF ne, of v ValueError] by simp
    then show ?thesis using Inr Cons.IH[OF rest, of v'] by simp
  qed
qed

text \<open>
  C4. \<open>load\<close> raises exactly when some line of the file has the unit keyword, in any
  case, as its first token and a second token that \<open>int\<close> rejects; the exception is
  then the ValueError of \<open>int\<close>, so no object is built and the unit is not set to zero.
  No other line makes the loop fail.
\<close>

theorem load_fails_iff_malformed_unit:
  "(load f contents version_type ext_attr = Inl e) =
     (e = ValueError \<and> (\<exists>line\<in>set (file_lines contents). malformed_unit_line line))"
proof -
  have ne: "\<forall>l\<in>set (file_lines contents). l \<noteq> []" using file_lines_nonempty by blast
  show ?thesis
  proof (cases rule: load_cases[of f contents version_type ext_attr])
    case (error e')
    then show ?thesis using load_lines_error_iff[OF ne, of "load_defaults f" e'] by auto
  next
    case (result v c)
    then show ?thesis using load_lines_error_iff[OF ne, of "load_defaults f" ValueError] by auto
  qed
qed

lemma ex_malformed:
  "\<exists>line\<in>set (file_lines ''OUTPUT_FILE_UNIT notanumber\<newline>''). malformed_unit_line line"
  by code_simp

theorem load_fails_iff_malformed_unit_witness:
  "load ''x.lmt'' ''OUTPUT_FILE_UNIT notanumber\<newline>'' ''MODFLOW-2005'' None = Inl ValueError"
  using load_fails_iff_malformed_unit[of "''x.lmt''" "''OUTPUT_FILE_UNIT notanumber\<newline>''"
          "''MODFLOW-2005''" None ValueError] ex_malformed
  by simp

subsection \<open>What the loop keeps and what it adds\<close>

lemma load_line_result_cases:
  assumes "load_line v line = Inr v'"
  shows "v' = v \<or>
         (key_line ''output_file_name'' line \<and> v' = v\<lparr>output_file_name := tokens line ! 1\<rparr>) \<or>
         (key_line ''output_file_unit'' line \<and>
            (\<exists>n. py_int (tokens line ! 1) = Some n \<and> v' = v\<lparr>output_file_unit := n\<rparr>)) \<or>
         (key_line ''output_file_header'' line \<and> v' = v\<lparr>output_file_header := tokens line ! 1\<rparr>) \<or>
         (key_line ''output_file_format'' line \<and> v' = v\<lparr>output_file_format := tokens line ! 1\<rparr>) \<or>
         (key_line ''package_flows'' line \<and>
            v' = v\<lparr>package_flows := package_flows v @ tl (tokens line)\<rparr>)"
  using assms
  by (auto simp: load_line_def key_line_def tokens_def Let_def map_nth_tl_Suc
           split: if_splits option.splits)

lemma key_line_unique: "key_line k line \<Longrightarrow> key_line k' line \<Longrightarrow> k = k'"
  by (simp add: key_line_def)

lemma load_line_keeps_name:
  "load_line v line = Inr v' \<Longrightarrow> \<not> key_line ''output_file_name'' line \<Longrightarrow>
   output_file_name v' = output_file_name v"
  by (drule load_line_result_cases) auto

lemma load_line_keeps_unit:
  "load_line v line = Inr v' \<Longrightarrow> \<not> key_line ''output_file_unit'' line \<Longrightarrow>
   output_file_unit v' = output_file_unit v"
  by (drule load_line_result_cases) auto

lemma load_line_keeps_header:
  "load_line v line = Inr v' \<Longrightarrow> \<not> key_line ''output_file_header'' line \<Longrightarrow>
   output_file_header v' = output_file_header v"
  by (drule load_line_result_cases) auto

lemma load_line_keeps_format:
  "load_line v line = Inr v' \<Longrightarrow> \<not> key_line ''output_file_format'' line \<Longrightarrow>
   output_file_format v' = output_file_format v"
  by (drule load_line_result_cases) auto

lemma load_line_adds_flows:
  "package_flows v' = package_flows v @ flows_of line" if "load_line v line = Inr v'"
proof (cases "key_line ''package_flows'' line")
  case True
  then show ?thesis using that by (auto simp: flows_of_def load_line_flows)
next
  case False
  then show ?thesis using load_line_result_cases[OF that] by (auto simp: flows_of_def)
qed

lemma load_lines_keeps_name:
  "load_lines v ls = Inr v' \<Longrightarrow> \<forall>l\<in>set ls. \<not> key_line ''output_file_name'' l \<Longrightarrow>
   output_file_name v' = output_file_name v"
  by (induction ls arbitrary: v) (auto split: sum.splits dest: load_line_keeps_name)

lemma load_lines_keeps_unit:
  "load_lines v ls = Inr v' \<Longrightarrow> \<forall>l\<in>set ls. \<not> key_line ''output_file_unit'' l \<Longrightarrow>
   output_file_unit v' = output_file_unit v"
  by (induction ls arbitrary: v) (auto split: sum.splits dest: load_line_keeps_unit)

lemma load_lines_keeps_header:
  "load_lines v ls = Inr v' \<Longrightarrow> \<forall>l\<in>set ls. \<not> key_line ''output_file_header'' l \<Longrightarrow>
   output_file_header v' = output_file_header v"
  by (induction ls arbitrary: v) (auto split: sum.splits dest: load_line_keeps_header)

lemma load_lines_keeps_format:
  "load_lines v ls = Inr v' \<Longrightarrow> \<forall>l\<in>set ls. \<not> key_line ''output_file_format'' l \<Longrightarrow>
   output_file_format v' = output_file_format v"
  by (induction ls arbitrary: v) (auto split: sum.splits dest: load_line_keeps_format)

lemma load_lines_adds_flows:
  "load_lines v ls = Inr v' \<Longrightarrow> package_flows v' = package_flows v @ concat (map flows_of ls)"
  by (induction ls arbitrary: v) (auto split: sum.splits dest: load_line_adds_flows)

lemma load_lines_split:
  assumes "load_lines v (pre @ l # post) = Inr v'"
  obtains v1 v2 where "load_lines v pre = Inr v1" and "load_line v1 l = Inr v2"
    and "load_lines v2 post = Inr v'"
  using assms by (auto simp: load_lines_append split: sum.splits)

lemma load_lines_last_wins:
  assumes "load_lines v (pre @ l # post) = Inr v'"
  shows "key_line ''output_file_name'' l \<Longrightarrow> \<forall>l'\<in>set post. \<not> key_line ''output_file_name'' l' \<Longrightarrow>
           output_file_name v' = tokens l ! 1"
    and "key_line ''output_file_unit'' l \<Longrightarrow> \<forall>l'\<in>set post. \<not> key_line ''output_file_unit'' l' \<Longrightarrow>
           py_int (tokens l ! 1) = Some (output_file_unit v')"
    and "key_line ''output_file_header'' l \<Longrightarrow> \<forall>l'\<in>set post. \<not> key_line ''output_file_header'' l' \<Longrightarrow>
           output_file_header v' = tokens l ! 1"
    and "key_line ''output_file_format'' l \<Longrightarrow> \<forall>l'\<in>set post. \<not> key_line ''output_file_format'' l' \<Longrightarrow>
           output_file_format v' = tokens l ! 1"
proof -
  obtain v1 v2 where s: "load_line v1 l = Inr v2" "load_lines v2 post = Inr v'"
    using assms by (rule load_lines_split)
  show "key_line ''output_file_name'' l \<Longrightarrow> \<forall>l'\<in>set post. \<not> key_line ''output_file_name'' l' \<Longrightarrow>
           output_file_name v' = tokens l ! 1"
    using s load_lines_keeps_name[of v2 post v'] by (auto simp: load_line_name)
  show "key_line ''output_file_unit'' l \<Longrightarrow> \<forall>l'\<in>set post. \<not> key_line ''output_file_unit'' l' \<Longrightarrow>
           py_int (tokens l ! 1) = Some (output_file_unit v')"
    using s load_lines_keeps_unit[of v2 post v']
    by (auto simp: load_line_unit split: option.splits)
  show "key_line ''output_file_header'' l \<Longrightarrow> \<forall>l'\<in>set post. \<not> key_line ''output_file_header'' l' \<Longrightarrow>
           output_file_header v' = tokens l ! 1"
    using s load_lines_keeps_header[of v2 post v'] by (auto simp: load_line_header)
  show "key_line ''output_file_format'' l \<Longrightarrow> \<forall>l'\<in>set post. \<not> key_line ''output_file_format'' l' \<Longrightarrow>
           output_file_format v' = tokens l ! 1"
    using s load_lines_keeps_format[of v2 post v'] by (auto simp: load_line_format)
qed

lemma load_defaults_no_flows: "package_flows (load_defaults f) = []"
  by (simp add: load_defaults_def Let_def)

lemma universal_newlines_LF:
  "universal_newlines (CHR 0x0A # rest) = CHR 0x0A # universal_newlines rest"
  by (cases rest) auto

lemma universal_newlines_line:
  "CHR 0x0D \<notin> set l \<Longrightarrow>
   universal_newlines (l @ CHR 0x0A # rest) = l @ CHR 0x0A # universal_newlines rest"
  by (induction l rule: universal_newlines.induct) (auto simp: universal_newlines_LF)

lemma file_lines_line:
  assumes "CHR 0x0D \<notin> set l" and "CHR 0x0A \<notin> set l"
  shows "file_lines (l @ CHR 0x0A # rest) = (l @ [CHR 0x0A]) # file_lines rest"
  using assms by (simp add: file_lines_def universal_newlines_line lines_acc_line)

lemma file_lines_Nil: "file_lines [] = []"
  by (simp add: file_lines_def)

lemma comment_line_one_line:
  assumes "comment_line h"
  shows "h \<noteq> []" and "hd h = CHR ''#''" and "CHR 0x0D \<notin> set h" and "CHR 0x0A \<notin> set h"
  using assms by (auto simp: comment_line_def list_all_iff split: list.splits)

text \<open>
  A file that is one comment line loads to the defaults, under any file name.
\<close>

lemma load_comment_only:
  assumes "comment_line h"
  shows "\<exists>c. load f (h @ [CHR 0x0A]) version_type ext_attr = Inr c \<and>
             output_file_name c = output_file_name (load_defaults f) \<and>
             output_file_unit c = 333 \<and> output_file_header c = ''standard'' \<and>
             output_file_format c = ''unformatted'' \<and> package_flows c = []"
proof -
  have "file_lines (h @ [CHR 0x0A]) = [h @ [CHR 0x0A]]"
    using comment_line_one_line[OF assms] file_lines_line[of h "[]"] by (simp add: file_lines_Nil)
  moreover have "load_line (load_defaults f) (h @ [CHR 0x0A]) = Inr (load_defaults f)"
    using comment_line_one_line[OF assms] by (simp add: load_line_comment_hd)
  ultimately have "load_lines (load_defaults f) (file_lines (h @ [CHR 0x0A])) = Inr (load_defaults f)"
    by simp
  from load_result[OF this, of version_type ext_attr] show ?thesis
    by (auto simp: load_defaults_def Let_def)
qed

text \<open>
  C3. The specification has the default output file name be the base name of the file
  name with its extension replaced by \<open>.ftl\<close>, and a file of one comment line load
  to the defaults without error. The loading part holds (\<open>load_comment_only\<close>), and
  so does the name for a base name with a dot (\<open>load_defaults_with_extension\<close>).
  For a base name without a dot \<open>rfind\<close> gives \<open>-1\<close> and the slice drops the
  last character: the file \<open>lmtfile\<close>, holding one comment line, loads without
  error, but with the default \<open>lmtfil.ftl\<close> where the specification has
  \<open>lmtfile.ftl\<close>.
\<close>

theorem load_default_name_without_extension:
  "\<exists>c. load ''lmtfile'' ''# LMT6 input\<newline>'' version_type ext_attr = Inr c \<and>
       output_file_name c = ''lmtfil.ftl'' \<and>
       spec_default_name ''lmtfile'' = ''lmtfile.ftl'' \<and>
       output_file_unit c = 333 \<and> output_file_header c = ''standard'' \<and>
       output_file_format c = ''unformatted'' \<and> package_flows c = []"
proof -
  have "comment_line ''# LMT6 input''" by code_simp
  from load_comment_only[OF this, of "''lmtfile''" version_type ext_attr]
  obtain c where c: "load ''lmtfile'' ''# LMT6 input\<newline>'' version_type ext_attr = Inr c"
    "output_file_name c = output_file_name (load_defaults ''lmtfile'')"
    "output_file_unit c = 333" "output_file_header c = ''standard''"
    "output_file_format c = ''unformatted''" "package_flows c = []"
    by auto
  have "output_file_name (load_defaults ''lmtfile'') = ''lmtfil.ftl''" by code_simp
  moreover have "spec_default_name ''lmtfile'' = ''lmtfile.ftl''" by code_simp
  ultimately show ?thesis using c by simp
qed

text \<open>
  C9. When \<open>load\<close> succeeds: a line with a scalar keyword that no later line with the
  same keyword follows decides the field (its second token, read by \<open>int\<close> for the
  unit), so the last such line wins; and the package flows are the tokens of all
  \<open>package_flows\<close> lines, in the order of the file, each line adding to what the
  earlier ones gave.
\<close>

theorem load_last_scalar_wins_flows_accumulate:
  assumes "load f contents version_type ext_attr = Inr c"
      and "file_lines contents = pre @ l # post"
  shows "(key_line ''output_file_name'' l \<and>
            (\<forall>l'\<in>set post. \<not> key_line ''output_file_name'' l') \<longrightarrow>
          output_file_name c = tokens l ! 1) \<and>
         (key_line ''output_file_unit'' l \<and>
            (\<forall>l'\<in>set post. \<not> key_line ''output_file_unit'' l') \<longrightarrow>
          py_int (tokens l ! 1) = Some (output_file_unit c)) \<and>
         (key_line ''output_file_header'' l \<and>
            (\<forall>l'\<in>set post. \<not> key_line ''output_file_header'' l') \<longrightarrow>
          output_file_header c = tokens l ! 1) \<and>
         (key_line ''output_file_format'' l \<and>
            (\<forall>l'\<in>set post. \<not> key_line ''output_file_format'' l') \<longrightarrow>
          output_file_format c = tokens l ! 1) \<and>
         package_flows c = concat (map flows_of pre) @ flows_of l @ concat (map flows_of post)"
proof (cases rule: load_cases[of f contents version_type ext_attr])
  case (error e)
  then show ?thesis using assms(1) by simp
next
  case (result v c')
  then have eq: "c' = c" using assms(1) by simp
  have lines: "load_lines (load_defaults f) (pre @ l # post) = Inr v"
    using result(1) assms(2) by simp
  have "package_flows v = concat (map flows_of (pre @ l # post))"
    using load_lines_adds_flows[OF lines] by (simp add: load_defaults_no_flows)
  then show ?thesis
    using load_lines_last_wins[OF lines] result eq by simp
qed

lemma ex_load:
  "load ''x.lmt''
     ''OUTPUT_FILE_NAME a\<newline>PACKAGE_FLOWS sfr\<newline>output_file_name b\<newline>PACKAGE_FLOWS lak uzf\<newline>''
     ''MODFLOW-2005'' None =
   Inr \<lparr>output_file_name = ''b'', output_file_unit = 333,
        output_file_header = ''standard'', output_file_format = ''unformatted'',
        package_flows = [''sfr'', ''lak'', ''uzf''], name = [''LMT6''],
        unit_number = [30], extra = [[]], file_name = [None], extension = ''lmt6'',
        heading = ''# LMT6 package for  MODFLOW-2005, generated by Flopy.'',
        url = ''lmt.htm''\<rparr>"
  by code_simp

lemma ex_file_lines:
  "file_lines ''OUTPUT_FILE_NAME a\<newline>PACKAGE_FLOWS sfr\<newline>output_file_name b\<newline>PACKAGE_FLOWS lak uzf\<newline>'' =
   [''OUTPUT_FILE_NAME a\<newline>'', ''PACKAGE_FLOWS sfr\<newline>''] @
   ''output_file_name b\<newline>'' # [''PACKAGE_FLOWS lak uzf\<newline>'']"
  by code_simp

lemma ex_last_name:
  "key_line ''output_file_name'' ''output_file_name b\<newline>'' \<and>
   (\<forall>l'\<in>set [''PACKAGE_FLOWS lak uzf\<newline>'']. \<not> key_line ''output_file_name'' l')"
  by code_simp

theorem load_last_scalar_wins_flows_accumulate_witness:
  "output_file_name
     \<lparr>output_file_name = ''b'', output_file_unit = 333,
      output_file_header = ''standard'', output_file_format = ''unformatted'',
      package_flows = [''sfr'', ''lak'', ''uzf''], name = [''LMT6''],
      unit_number = [30], extra = [[]], file_name = [None], extension = ''lmt6'',
      heading = ''# LMT6 package for  MODFLOW-2005, generated by Flopy.'',
      url = ''lmt.htm''\<rparr> = tokens ''output_file_name b\<newline>'' ! 1 \<and>
   [''sfr'', ''lak'', ''uzf''] =
     concat (map flows_of [''OUTPUT_FILE_NAME a\<newline>'', ''PACKAGE_FLOWS sfr\<newline>'']) @
     flows_of ''output_file_name b\<newline>'' @
     concat (map flows_of [''PACKAGE_FLOWS lak uzf\<newline>''])"
  using load_last_scalar_wins_flows_accumulate[OF ex_load ex_file_lines] ex_last_name
  by simp

subsection \<open>The package flows that are written\<close>

lemma lower_SFR: "lower ''SFR'' = ''sfr''" by code_simp
lemma lower_LAK: "lower ''LAK'' = ''lak''" by code_simp
lemma lower_UZF: "lower ''UZF'' = ''uzf''" by code_simp

lemma pckgs_canonical: "pckgs pf = concat (map (\<lambda>k. k @ '' '') (canonical_flows pf))"
  by (simp add: pckgs_def canonical_flows_def lower_SFR lower_LAK lower_UZF)

lemma canonical_flows_subset: "set (canonical_flows pf) \<subseteq> {''SFR'', ''LAK'', ''UZF''}"
  by (auto simp: canonical_flows_def)

lemma canonical_flows_distinct: "distinct (canonical_flows pf)"
  by (simp add: canonical_flows_def)

lemma canonical_flows_member:
  "(k \<in> set (canonical_flows pf)) =
     (k \<in> {''SFR'', ''LAK'', ''UZF''} \<and> lower k \<in> set (map lower pf))"
  by (auto simp: canonical_flows_def)

lemma canonical_flows_idem: "canonical_flows (canonical_flows pf) = canonical_flows pf"
proof -
  have h: "\<And>k. k \<in> set [''SFR'', ''LAK'', ''UZF''] \<Longrightarrow>
          (lower k \<in> set (map lower (canonical_flows pf))) = (lower k \<in> set (map lower pf))"
    by (auto simp: canonical_flows_def lower_SFR lower_LAK lower_UZF)
  have "canonical_flows (canonical_flows pf) =
        filter (\<lambda>k. lower k \<in> set (map lower (canonical_flows pf))) [''SFR'', ''LAK'', ''UZF'']"
    by (rule canonical_flows_def)
  also have "\<dots> = filter (\<lambda>k. lower k \<in> set (map lower pf)) [''SFR'', ''LAK'', ''UZF'']"
    by (rule filter_cong) (use h in blast)+
  also have "\<dots> = canonical_flows pf"
    by (rule canonical_flows_def[symmetric])
  finally show ?thesis .
qed

lemma is_token_iff: "is_token s = (s \<noteq> [] \<and> (\<forall>c\<in>set s. \<not> isspace c))"
  by (simp add: is_token_def list_all_iff)

lemma isspace_blank: "isspace (CHR '' '')" by (simp add: isspace_def)
lemma isspace_LF: "isspace (CHR 0x0A)" by (simp add: isspace_def)

lemma split_acc_joined:
  "\<forall>k\<in>set ks. is_token k \<Longrightarrow> split_acc [] (concat (map (\<lambda>k. k @ '' '') ks) @ w) = ks @ split_acc [] w"
proof (induction ks)
  case Nil
  then show ?case by simp
next
  case (Cons k ks)
  then have "is_token k" by simp
  then have "split_acc [] (k @ CHR '' '' # (concat (map (\<lambda>k. k @ '' '') ks) @ w)) =
             k # split_acc [] (concat (map (\<lambda>k. k @ '' '') ks) @ w)"
    by (intro split_acc_token) (auto simp: is_token_iff isspace_blank)
  then show ?case using Cons by simp
qed

lemma canonical_flows_tokens: "\<forall>k\<in>set (canonical_flows pf). is_token k"
proof -
  have "is_token ''SFR''" "is_token ''LAK''" "is_token ''UZF''" by code_simp+
  then show ?thesis using canonical_flows_subset[of pf] by auto
qed

lemma split_pckgs: "split (pckgs pf) = canonical_flows pf"
  using split_acc_joined[OF canonical_flows_tokens, of pf "[]"]
  by (simp add: split_def pckgs_canonical)

lemma tokens_eq: "tokens line = split_acc [] line"
  unfolding tokens_def split_strip by (rule split_def)

lemma tokens_keyword_rest:
  "is_token k \<Longrightarrow> tokens (k @ CHR '' '' # rest) = k # split rest"
  unfolding tokens_eq split_def
  by (rule split_acc_token) (simp_all add: is_token_iff isspace_blank)

lemma split_pckgs_LF: "split (pckgs pf @ [CHR 0x0A]) = canonical_flows pf"
  using split_acc_joined[OF canonical_flows_tokens, of pf "[CHR 0x0A]"]
  by (simp add: split_def pckgs_canonical isspace_LF)

lemma tokens_flows_line:
  "tokens (''PACKAGE_FLOWS '' @ pckgs pf @ [CHR 0x0A]) = ''PACKAGE_FLOWS'' # canonical_flows pf"
proof -
  have tok: "is_token ''PACKAGE_FLOWS''" by code_simp
  have e: "''PACKAGE_FLOWS '' @ pckgs pf @ [CHR 0x0A] =
           ''PACKAGE_FLOWS'' @ CHR '' '' # (pckgs pf @ [CHR 0x0A])" by simp
  show ?thesis by (simp only: e tokens_keyword_rest[OF tok] split_pckgs_LF)
qed

lemma last_write_calls:
  "package_flows c \<noteq> [] \<Longrightarrow>
   last (write_calls c) = ''PACKAGE_FLOWS '' @ pckgs (package_flows c) @ [CHR 0x0A]"
  by (simp add: write_calls_def)

lemma tokens_last_write_calls:
  "tokens (last (write_calls c)) = ''PACKAGE_FLOWS'' # canonical_flows (package_flows c)"
  if "package_flows c \<noteq> []"
  unfolding last_write_calls[OF that] by (rule tokens_flows_line)

lemma canonical_flows_sfr_uzf:
  assumes "\<exists>x\<in>set pf. lower x = ''uzf''" and "\<exists>x\<in>set pf. lower x = ''sfr''"
      and "\<forall>x\<in>set pf. lower x \<noteq> ''lak''"
  shows "canonical_flows pf = [''SFR'', ''UZF'']"
proof -
  have "''uzf'' \<in> set (map lower pf)" "''sfr'' \<in> set (map lower pf)" "''lak'' \<notin> set (map lower pf)"
    using assms by force+
  then show ?thesis by (simp add: canonical_flows_def lower_SFR lower_LAK lower_UZF)
qed

text \<open>
  C2. \<open>write_file\<close> writes, in this order, the heading, the name line, the unit line
  with the number right-justified in ten columns, the header line and the format line;
  the three lines built with \<open>{:20s}\<close> are filled with blanks to twenty characters
  when the value is short. Only when the package flows are not empty a last line
  follows, \<open>PACKAGE_FLOWS\<close> and the canonical flows, each followed by one blank; its
  tokens are the keyword and the canonical flows. When the members of the package
  flows, read without case, are UZF and SFR (with or without unrecognised ones, in any
  order), that line is \<open>PACKAGE_FLOWS SFR UZF \<close>.
\<close>

theorem write_file_layout:
  "write_file c = concat (write_calls c) \<and>
   write_calls c =
     [heading c @ [CHR 0x0A],
      ''OUTPUT_FILE_NAME '' @ output_file_name c @
         replicate (3 - length (output_file_name c)) (CHR '' '') @ [CHR 0x0A],
      ''OUTPUT_FILE_UNIT     '' @
         replicate (10 - length (str_int (output_file_unit c))) (CHR '' '') @
         str_int (output_file_unit c) @ [CHR 0x0A],
      ''OUTPUT_FILE_HEADER '' @ output_file_header c @
         replicate (1 - length (output_file_header c)) (CHR '' '') @ [CHR 0x0A],
      ''OUTPUT_FILE_FORMAT '' @ output_file_format c @
         replicate (1 - length (output_file_format c)) (CHR '' '') @ [CHR 0x0A]] @
     (if package_flows c = [] then []
      else [''PACKAGE_FLOWS '' @
            concat (map (\<lambda>k. k @ '' '') (canonical_flows (package_flows c))) @ [CHR 0x0A]]) \<and>
   (package_flows c \<noteq> [] \<longrightarrow>
      tokens (last (write_calls c)) = ''PACKAGE_FLOWS'' # canonical_flows (package_flows c)) \<and>
   ((\<exists>x\<in>set (package_flows c). lower x = ''uzf'') \<and>
    (\<exists>x\<in>set (package_flows c). lower x = ''sfr'') \<and>
    (\<forall>x\<in>set (package_flows c). lower x \<noteq> ''lak'') \<longrightarrow>
      last (write_calls c) = ''PACKAGE_FLOWS SFR UZF '' @ [CHR 0x0A])"
proof (intro conjI impI)
  show "write_file c = concat (write_calls c)" by (rule write_file_def)
  show "write_calls c =
     [heading c @ [CHR 0x0A],
      ''OUTPUT_FILE_NAME '' @ output_file_name c @
         replicate (3 - length (output_file_name c)) (CHR '' '') @ [CHR 0x0A],
      ''OUTPUT_FILE_UNIT     '' @
         replicate (10 - length (str_int (output_file_unit c))) (CHR '' '') @
         str_int (output_file_unit c) @ [CHR 0x0A],
      ''OUTPUT_FILE_HEADER '' @ output_file_header c @
         replicate (1 - length (output_file_header c)) (CHR '' '') @ [CHR 0x0A],
      ''OUTPUT_FILE_FORMAT '' @ output_file_format c @
         replicate (1 - length (output_file_format c)) (CHR '' '') @ [CHR 0x0A]] @
     (if package_flows c = [] then []
      else [''PACKAGE_FLOWS '' @
            concat (map (\<lambda>k. k @ '' '') (canonical_flows (package_flows c))) @ [CHR 0x0A]])"
    by (simp add: write_calls_def format_20s_def ljust_def format_10d_def rjust_def
          pckgs_canonical eval_nat_numeral)
  show "tokens (last (write_calls c)) = ''PACKAGE_FLOWS'' # canonical_flows (package_flows c)"
    if "package_flows c \<noteq> []"
    using that by (rule tokens_last_write_calls)
  show "last (write_calls c) = ''PACKAGE_FLOWS SFR UZF '' @ [CHR 0x0A]"
    if h: "(\<exists>x\<in>set (package_flows c). lower x = ''uzf'') \<and>
        (\<exists>x\<in>set (package_flows c). lower x = ''sfr'') \<and>
        (\<forall>x\<in>set (package_flows c). lower x \<noteq> ''lak'')"
  proof -
    have ne: "package_flows c \<noteq> []" using h by auto
    have "canonical_flows (package_flows c) = [''SFR'', ''UZF'']"
      using h by (intro canonical_flows_sfr_uzf) auto
    then show ?thesis by (simp add: last_write_calls[OF ne] pckgs_canonical)
  qed
qed

lemma default_with_flows_init:
  "ModflowLmt_init ''MODFLOW-2005'' ''mt3d_link.ftl'' 54 ''extended'' ''unformatted'' ''lmt6''
     pf None NoFilenames = Inr (default_with_flows pf)"
  by (simp add: ModflowLmt_init_def default_with_flows_def defaultunit_def ftype_def)

lemma ex_sfr_uzf:
  "(\<exists>x\<in>set (package_flows (default_with_flows [''uzf'', ''FOO'', ''Sfr''])). lower x = ''uzf'') \<and>
   (\<exists>x\<in>set (package_flows (default_with_flows [''uzf'', ''FOO'', ''Sfr''])). lower x = ''sfr'') \<and>
   (\<forall>x\<in>set (package_flows (default_with_flows [''uzf'', ''FOO'', ''Sfr''])). lower x \<noteq> ''lak'')"
  by code_simp

theorem write_file_layout_witness:
  "last (write_calls (default_with_flows [''uzf'', ''FOO'', ''Sfr''])) = ''PACKAGE_FLOWS SFR UZF \<newline>''"
  using write_file_layout[of "default_with_flows [''uzf'', ''FOO'', ''Sfr'']",
          THEN conjunct2, THEN conjunct2, THEN conjunct2, THEN mp, OF ex_sfr_uzf]
  by simp

lemma count_list_distinct:
  "distinct xs \<Longrightarrow> count_list xs x = (if x \<in> set xs then 1 else 0)"
  by (induction xs) auto

text \<open>
  C10. In the \<open>PACKAGE_FLOWS\<close> line that \<open>write_file\<close> writes, each of SFR, LAK and
  UZF stands once when some member of the package flows equals it without regard to
  case, and not at all otherwise, however often and in whatever spellings the member
  occurs in the list. Without package flows no such line is written.
\<close>

theorem write_flows_at_most_once:
  "(package_flows c = [] \<longrightarrow> length (write_calls c) = 5) \<and>
   (package_flows c \<noteq> [] \<longrightarrow>
      length (write_calls c) = 6 \<and>
      (\<forall>k\<in>set [''SFR'', ''LAK'', ''UZF''].
         count_list (tokens (last (write_calls c))) k =
           (if lower k \<in> set (map lower (package_flows c)) then 1 else 0)))"
proof (intro conjI impI)
  show "length (write_calls c) = 5" if "package_flows c = []"
    using that by (simp add: write_calls_def)
  show "length (write_calls c) = 6" if "package_flows c \<noteq> []"
    using that by (simp add: write_calls_def)
  show "\<forall>k\<in>set [''SFR'', ''LAK'', ''UZF''].
         count_list (tokens (last (write_calls c))) k =
           (if lower k \<in> set (map lower (package_flows c)) then 1 else 0)"
    if ne: "package_flows c \<noteq> []"
  proof
    fix k assume k: "k \<in> set [''SFR'', ''LAK'', ''UZF'']"
    then have "k \<noteq> ''PACKAGE_FLOWS''" by auto
    then have "count_list (tokens (last (write_calls c))) k =
               count_list (canonical_flows (package_flows c)) k"
      by (simp add: tokens_last_write_calls[OF ne])
    also have "\<dots> = (if k \<in> set (canonical_flows (package_flows c)) then 1 else 0)"
      by (rule count_list_distinct) (rule canonical_flows_distinct)
    also have "\<dots> = (if lower k \<in> set (map lower (package_flows c)) then 1 else 0)"
      using k by (simp only: canonical_flows_member) auto
    finally show "count_list (tokens (last (write_calls c))) k =
           (if lower k \<in> set (map lower (package_flows c)) then 1 else 0)" .
  qed
qed

lemma ex_repeated:
  "package_flows (default_with_flows [''sfr'', ''SFR'', ''Sfr'', ''uzf'']) \<noteq> [] \<and>
   lower ''SFR'' \<in> set (map lower (package_flows (default_with_flows [''sfr'', ''SFR'', ''Sfr'', ''uzf''])))"
  by code_simp

theorem write_flows_at_most_once_witness:
  "count_list (tokens (last (write_calls (default_with_flows [''sfr'', ''SFR'', ''Sfr'', ''uzf''])))) ''SFR'' = 1"
proof -
  let ?c = "default_with_flows [''sfr'', ''SFR'', ''Sfr'', ''uzf'']"
  have "\<forall>k\<in>set [''SFR'', ''LAK'', ''UZF''].
         count_list (tokens (last (write_calls ?c))) k =
           (if lower k \<in> set (map lower (package_flows ?c)) then 1 else 0)"
    using write_flows_at_most_once[of ?c, THEN conjunct2, THEN mp, OF ex_repeated[THEN conjunct1]]
    by (rule conjunct2)
  then have "count_list (tokens (last (write_calls ?c))) ''SFR'' =
           (if lower ''SFR'' \<in> set (map lower (package_flows ?c)) then 1 else 0)"
    by simp
  then show ?thesis using ex_repeated[THEN conjunct2] by simp
qed

text \<open>
  C7. When \<open>load\<close> succeeds, every token after a \<open>package_flows\<close> keyword is in the
  package flows of the object as it stands in the file. A following \<open>write_file\<close>
  writes a \<open>PACKAGE_FLOWS\<close> line whose tokens after the keyword are the canonical
  flows: a token that is none of sfr, lak, uzf in lower case is not among them in any
  spelling, and a token that is one of them is there in upper case. So writing after
  loading loses, of the package flows, the unrecognised tokens and nothing else.
\<close>

theorem load_keeps_write_drops_unrecognized:
  assumes "load f contents version_type ext_attr = Inr c"
      and "line \<in> set (file_lines contents)"
      and "key_line ''package_flows'' line"
      and "tok \<in> set (tl (tokens line))"
  shows "tok \<in> set (package_flows c) \<and>
         tokens (last (write_calls c)) = ''PACKAGE_FLOWS'' # canonical_flows (package_flows c) \<and>
         (lower tok \<notin> set [''sfr'', ''lak'', ''uzf''] \<longrightarrow>
            (\<forall>k\<in>set (tl (tokens (last (write_calls c)))). lower k \<noteq> lower tok)) \<and>
         (lower tok \<in> set [''sfr'', ''lak'', ''uzf''] \<longrightarrow>
            (\<exists>k\<in>set (tl (tokens (last (write_calls c)))). lower k = lower tok))"
proof -
  have flows: "package_flows c = concat (map flows_of (file_lines contents))"
  proof (cases rule: load_cases[of f contents version_type ext_attr])
    case (error e)
    then show ?thesis using assms(1) by simp
  next
    case (result v c')
    then show ?thesis
      using assms(1) load_lines_adds_flows[OF result(1)] by (simp add: load_defaults_no_flows)
  qed
  have "tok \<in> set (flows_of line)" using assms(3,4) by (simp add: flows_of_def)
  then have mem: "tok \<in> set (package_flows c)" using assms(2) flows by auto
  then have ne: "package_flows c \<noteq> []" by auto
  have written: "tl (tokens (last (write_calls c))) = canonical_flows (package_flows c)"
    by (simp add: tokens_last_write_calls[OF ne])
  have lost: "\<forall>k\<in>set (canonical_flows (package_flows c)). lower k \<noteq> lower tok"
    if "lower tok \<notin> set [''sfr'', ''lak'', ''uzf'']"
    using that by (auto simp: canonical_flows_def lower_SFR lower_LAK lower_UZF)
  have kept: "\<exists>k\<in>set (canonical_flows (package_flows c)). lower k = lower tok"
    if "lower tok \<in> set [''sfr'', ''lak'', ''uzf'']"
  proof -
    have "lower tok \<in> set (map lower (package_flows c))" using mem by simp
    then show ?thesis
      using that by (auto simp: canonical_flows_def lower_SFR lower_LAK lower_UZF)
  qed
  show ?thesis
    using mem tokens_last_write_calls[OF ne] lost kept unfolding written by blast
qed

lemma ex_load_flows:
  "load ''x.lmt'' ''PACKAGE_FLOWS sfr FOO\<newline>'' ''MODFLOW-2005'' None =
   Inr ((default_with_flows [''sfr'', ''FOO''])
          \<lparr>output_file_name := ''x.ftl'', output_file_unit := 333,
           output_file_header := ''standard''\<rparr>)"
  by code_simp

lemma ex_flows_line:
  "''PACKAGE_FLOWS sfr FOO\<newline>'' \<in> set (file_lines ''PACKAGE_FLOWS sfr FOO\<newline>'') \<and>
   key_line ''package_flows'' ''PACKAGE_FLOWS sfr FOO\<newline>'' \<and>
   ''FOO'' \<in> set (tl (tokens ''PACKAGE_FLOWS sfr FOO\<newline>'')) \<and>
   lower ''FOO'' \<notin> set [''sfr'', ''lak'', ''uzf'']"
  by code_simp

lemma ex_flows_written:
  "canonical_flows (package_flows ((default_with_flows [''sfr'', ''FOO''])
          \<lparr>output_file_name := ''x.ftl'', output_file_unit := 333,
           output_file_header := ''standard''\<rparr>)) = [''SFR'']"
  by code_simp

theorem load_keeps_write_drops_unrecognized_witness:
  "''FOO'' \<in> set (package_flows ((default_with_flows [''sfr'', ''FOO''])
          \<lparr>output_file_name := ''x.ftl'', output_file_unit := 333,
           output_file_header := ''standard''\<rparr>)) \<and>
   tokens (last (write_calls ((default_with_flows [''sfr'', ''FOO''])
          \<lparr>output_file_name := ''x.ftl'', output_file_unit := 333,
           output_file_header := ''standard''\<rparr>))) = [''PACKAGE_FLOWS'', ''SFR'']"
  using load_keeps_write_drops_unrecognized[OF ex_load_flows ex_flows_line[THEN conjunct1]
          ex_flows_line[THEN conjunct2, THEN conjunct1]
          ex_flows_line[THEN conjunct2, THEN conjunct2, THEN conjunct1]]
  unfolding ex_flows_written
  by blast

subsection \<open>Reading back what was written\<close>

lemma file_lines_concat:
  "\<forall>l\<in>set ls. \<exists>b. l = b @ [CHR 0x0A] \<and> CHR 0x0D \<notin> set b \<and> CHR 0x0A \<notin> set b \<Longrightarrow>
   file_lines (concat ls) = ls"
proof (induction ls)
  case Nil
  then show ?case by (simp add: file_lines_Nil)
next
  case (Cons l ls)
  then obtain b where b: "l = b @ [CHR 0x0A]" "CHR 0x0D \<notin> set b" "CHR 0x0A \<notin> set b" by auto
  have "file_lines (b @ CHR 0x0A # concat ls) = (b @ [CHR 0x0A]) # file_lines (concat ls)"
    using b(2,3) by (rule file_lines_line)
  then show ?case using Cons b(1) by simp
qed

lemma token_one_line:
  "is_token s \<Longrightarrow> CHR 0x0D \<notin> set s \<and> CHR 0x0A \<notin> set s"
  by (auto simp: is_token_iff isspace_def)

lemma str_int_one_line: "CHR 0x0D \<notin> set (str_int n) \<and> CHR 0x0A \<notin> set (str_int n)"
  using str_int_nospace[of n] by (auto simp: isspace_def)

lemma pckgs_one_line: "CHR 0x0D \<notin> set (pckgs pf) \<and> CHR 0x0A \<notin> set (pckgs pf)"
  by (simp add: pckgs_def)

lemma split_value_padding:
  assumes "is_token x"
  shows "split (replicate m (CHR '' '') @ x @ replicate n (CHR '' '') @ [CHR 0x0A]) = [x]"
proof -
  have x: "\<forall>c\<in>set x. \<not> isspace c" "x \<noteq> []" using assms by (simp_all add: is_token_iff)
  have "split_acc [] (replicate m (CHR '' '') @ (x @ replicate n (CHR '' '') @ [CHR 0x0A])) =
        split_acc [] (x @ replicate n (CHR '' '') @ [CHR 0x0A])"
    by (rule split_acc_leading) (simp add: isspace_blank)
  also have "\<dots> = split_acc ([] @ x) (replicate n (CHR '' '') @ [CHR 0x0A])"
    using x(1) by (rule split_acc_nospace)
  also have "\<dots> = [x]"
    using x(2) by (subst split_acc_spaces_only) (auto simp: isspace_blank isspace_LF)
  finally show ?thesis by (simp add: split_def)
qed

lemma tokens_key_value:
  assumes "is_token k" and "is_token x"
  shows "tokens (k @ CHR '' '' # replicate m (CHR '' '') @ x @ replicate n (CHR '' '') @ [CHR 0x0A]) = [k, x]"
  using tokens_keyword_rest[OF assms(1)] split_value_padding[OF assms(2)] by simp

lemma key_value_line:
  assumes "is_token k" and "hd k \<noteq> CHR ''#''" and "is_token x"
  shows "key_line (lower k)
           (k @ CHR '' '' # replicate m (CHR '' '') @ x @ replicate n (CHR '' '') @ [CHR 0x0A])"
    and "tokens (k @ CHR '' '' # replicate m (CHR '' '') @ x @ replicate n (CHR '' '') @ [CHR 0x0A]) ! 1 = x"
proof -
  have "k \<noteq> []" using assms(1) by (simp add: is_token_iff)
  then show "key_line (lower k)
           (k @ CHR '' '' # replicate m (CHR '' '') @ x @ replicate n (CHR '' '') @ [CHR 0x0A])"
    using assms(2) unfolding key_line_def tokens_key_value[OF assms(1,3)] by simp
  show "tokens (k @ CHR '' '' # replicate m (CHR '' '') @ x @ replicate n (CHR '' '') @ [CHR 0x0A]) ! 1 = x"
    unfolding tokens_key_value[OF assms(1,3)] by simp
qed

lemma load_line_written_name:
  assumes "is_token x"
  shows "load_line v (format_20s (''OUTPUT_FILE_NAME '' @ x) @ [CHR 0x0A]) =
         Inr (v\<lparr>output_file_name := x\<rparr>)"
proof -
  let ?L = "''OUTPUT_FILE_NAME'' @ CHR '' '' # replicate 0 (CHR '' '') @ x @
            replicate (3 - length x) (CHR '' '') @ [CHR 0x0A]"
  have e: "format_20s (''OUTPUT_FILE_NAME '' @ x) @ [CHR 0x0A] = ?L"
    by (simp add: format_20s_def ljust_def)
  have k: "is_token ''OUTPUT_FILE_NAME''" "hd ''OUTPUT_FILE_NAME'' \<noteq> CHR ''#''"
    "lower ''OUTPUT_FILE_NAME'' = ''output_file_name''" by code_simp+
  have "key_line ''output_file_name'' ?L"
    using key_value_line(1)[OF k(1,2) assms, of 0 "3 - length x"] unfolding k(3) .
  moreover have "tokens ?L ! 1 = x" by (rule key_value_line(2)[OF k(1,2) assms])
  ultimately show ?thesis unfolding e by (simp only: load_line_name)
qed

lemma load_line_written_header:
  assumes "is_token x"
  shows "load_line v (format_20s (''OUTPUT_FILE_HEADER '' @ x) @ [CHR 0x0A]) =
         Inr (v\<lparr>output_file_header := x\<rparr>)"
proof -
  let ?L = "''OUTPUT_FILE_HEADER'' @ CHR '' '' # replicate 0 (CHR '' '') @ x @
            replicate (1 - length x) (CHR '' '') @ [CHR 0x0A]"
  have e: "format_20s (''OUTPUT_FILE_HEADER '' @ x) @ [CHR 0x0A] = ?L"
    by (simp add: format_20s_def ljust_def)
  have k: "is_token ''OUTPUT_FILE_HEADER''" "hd ''OUTPUT_FILE_HEADER'' \<noteq> CHR ''#''"
    "lower ''OUTPUT_FILE_HEADER'' = ''output_file_header''" by code_simp+
  have "key_line ''output_file_header'' ?L"
    using key_value_line(1)[OF k(1,2) assms, of 0 "1 - length x"] unfolding k(3) .
  moreover have "tokens ?L ! 1 = x" by (rule key_value_line(2)[OF k(1,2) assms])
  ultimately show ?thesis unfolding e by (simp only: load_line_header)
qed

lemma load_line_written_format:
  assumes "is_token x"
  shows "load_line v (format_20s (''OUTPUT_FILE_FORMAT '' @ x) @ [CHR 0x0A]) =
         Inr (v\<lparr>output_file_format := x\<rparr>)"
proof -
  let ?L = "''OUTPUT_FILE_FORMAT'' @ CHR '' '' # replicate 0 (CHR '' '') @ x @
            replicate (1 - length x) (CHR '' '') @ [CHR 0x0A]"
  have e: "format_20s (''OUTPUT_FILE_FORMAT '' @ x) @ [CHR 0x0A] = ?L"
    by (simp add: format_20s_def ljust_def)
  have k: "is_token ''OUTPUT_FILE_FORMAT''" "hd ''OUTPUT_FILE_FORMAT'' \<noteq> CHR ''#''"
    "lower ''OUTPUT_FILE_FORMAT'' = ''output_file_format''" by code_simp+
  have "key_line ''output_file_format'' ?L"
    using key_value_line(1)[OF k(1,2) assms, of 0 "1 - length x"] unfolding k(3) .
  moreover have "tokens ?L ! 1 = x" by (rule key_value_line(2)[OF k(1,2) assms])
  ultimately show ?thesis unfolding e by (simp only: load_line_format)
qed

lemma str_int_token: "is_token (str_int n)"
  using str_int_nospace[of n] str_int_nonempty[of n] by (simp add: is_token_iff)

lemma load_line_written_unit:
  "load_line v (format_20s ''OUTPUT_FILE_UNIT '' @ '' '' @ format_10d n @ [CHR 0x0A]) =
   Inr (v\<lparr>output_file_unit := n\<rparr>)"
proof -
  let ?L = "''OUTPUT_FILE_UNIT'' @ CHR '' '' # replicate (4 + (10 - length (str_int n))) (CHR '' '') @
            str_int n @ replicate 0 (CHR '' '') @ [CHR 0x0A]"
  have e: "format_20s ''OUTPUT_FILE_UNIT '' @ '' '' @ format_10d n @ [CHR 0x0A] = ?L"
    by (simp add: format_20s_def ljust_def format_10d_def rjust_def replicate_add eval_nat_numeral)
  have k: "is_token ''OUTPUT_FILE_UNIT''" "hd ''OUTPUT_FILE_UNIT'' \<noteq> CHR ''#''"
    "lower ''OUTPUT_FILE_UNIT'' = ''output_file_unit''" by code_simp+
  have "key_line ''output_file_unit'' ?L"
    using key_value_line(1)[OF k(1,2) str_int_token, of "4 + (10 - length (str_int n))" n 0]
    unfolding k(3) .
  moreover have "tokens ?L ! 1 = str_int n" by (rule key_value_line(2)[OF k(1,2) str_int_token])
  ultimately show ?thesis unfolding e by (simp only: load_line_unit py_int_str_int option.case)
qed

lemma load_line_written_flows:
  "load_line v (''PACKAGE_FLOWS '' @ pckgs pf @ [CHR 0x0A]) =
   Inr (v\<lparr>package_flows := package_flows v @ canonical_flows pf\<rparr>)"
proof (cases "canonical_flows pf = []")
  case True
  have ne: "''PACKAGE_FLOWS '' @ pckgs pf @ [CHR 0x0A] \<noteq> []" by simp
  have len: "length (tokens (''PACKAGE_FLOWS '' @ pckgs pf @ [CHR 0x0A])) < 2"
    unfolding tokens_flows_line True by simp
  have "load_line v (''PACKAGE_FLOWS '' @ pckgs pf @ [CHR 0x0A]) = Inr v"
    using ne len by (rule load_line_short)
  then show ?thesis using True by simp
next
  case False
  have "lower ''PACKAGE_FLOWS'' = ''package_flows''" by code_simp
  then have "key_line ''package_flows'' (''PACKAGE_FLOWS '' @ pckgs pf @ [CHR 0x0A])"
    using False unfolding key_line_def tokens_flows_line by (cases "canonical_flows pf") simp_all
  from load_line_flows[OF this, of v] show ?thesis by (simp only: tokens_flows_line list.sel)
qed

lemma load_line_written_heading:
  "comment_line h \<Longrightarrow> load_line v (h @ [CHR 0x0A]) = Inr v"
  using comment_line_one_line(1,2)[of h] by (simp add: load_line_comment_hd)

lemma format_20s_one_line:
  "CHR 0x0D \<notin> set s \<and> CHR 0x0A \<notin> set s \<Longrightarrow>
   CHR 0x0D \<notin> set (format_20s s) \<and> CHR 0x0A \<notin> set (format_20s s)"
  by (simp add: format_20s_def ljust_def)

lemma format_10d_one_line:
  "CHR 0x0D \<notin> set (format_10d n) \<and> CHR 0x0A \<notin> set (format_10d n)"
  using str_int_one_line[of n] by (simp add: format_10d_def rjust_def)

lemma canonical_flows_Nil: "canonical_flows [] = []"
  by (simp add: canonical_flows_def)

lemma file_lines_write_file:
  assumes "comment_line (heading c)" and "is_token (output_file_name c)"
      and "is_token (output_file_header c)" and "is_token (output_file_format c)"
  shows "file_lines (write_file c) = write_calls c"
  unfolding write_file_def
proof (rule file_lines_concat, rule ballI)
  fix l assume l: "l \<in> set (write_calls c)"
  have h: "CHR 0x0D \<notin> set (heading c) \<and> CHR 0x0A \<notin> set (heading c)"
    using comment_line_one_line(3,4)[OF assms(1)] by simp
  have n: "CHR 0x0D \<notin> set (format_20s (''OUTPUT_FILE_NAME '' @ output_file_name c)) \<and>
           CHR 0x0A \<notin> set (format_20s (''OUTPUT_FILE_NAME '' @ output_file_name c))"
    using token_one_line[OF assms(2)] by (intro format_20s_one_line) simp
  have u: "CHR 0x0D \<notin> set (format_20s ''OUTPUT_FILE_UNIT '' @ '' '' @ format_10d (output_file_unit c)) \<and>
           CHR 0x0A \<notin> set (format_20s ''OUTPUT_FILE_UNIT '' @ '' '' @ format_10d (output_file_unit c))"
    using format_10d_one_line[of "output_file_unit c"]
          format_20s_one_line[of "''OUTPUT_FILE_UNIT ''"] by simp
  have hd: "CHR 0x0D \<notin> set (format_20s (''OUTPUT_FILE_HEADER '' @ output_file_header c)) \<and>
           CHR 0x0A \<notin> set (format_20s (''OUTPUT_FILE_HEADER '' @ output_file_header c))"
    using token_one_line[OF assms(3)] by (intro format_20s_one_line) simp
  have fm: "CHR 0x0D \<notin> set (format_20s (''OUTPUT_FILE_FORMAT '' @ output_file_format c)) \<and>
           CHR 0x0A \<notin> set (format_20s (''OUTPUT_FILE_FORMAT '' @ output_file_format c))"
    using token_one_line[OF assms(4)] by (intro format_20s_one_line) simp
  have pf: "CHR 0x0D \<notin> set (''PACKAGE_FLOWS '' @ pckgs (package_flows c)) \<and>
            CHR 0x0A \<notin> set (''PACKAGE_FLOWS '' @ pckgs (package_flows c))"
    using pckgs_one_line[of "package_flows c"] by simp
  from l consider "l = heading c @ [CHR 0x0A]"
    | "l = format_20s (''OUTPUT_FILE_NAME '' @ output_file_name c) @ [CHR 0x0A]"
    | "l = (format_20s ''OUTPUT_FILE_UNIT '' @ '' '' @ format_10d (output_file_unit c)) @ [CHR 0x0A]"
    | "l = format_20s (''OUTPUT_FILE_HEADER '' @ output_file_header c) @ [CHR 0x0A]"
    | "l = format_20s (''OUTPUT_FILE_FORMAT '' @ output_file_format c) @ [CHR 0x0A]"
    | "l = (''PACKAGE_FLOWS '' @ pckgs (package_flows c)) @ [CHR 0x0A]"
    by (auto simp: write_calls_def split: if_splits)
  then show "\<exists>b. l = b @ [CHR 0x0A] \<and> CHR 0x0D \<notin> set b \<and> CHR 0x0A \<notin> set b"
    using h n u hd fm pf by cases blast+
qed

lemma load_lines_write_calls:
  assumes "comment_line (heading c)" and "is_token (output_file_name c)"
      and "is_token (output_file_header c)" and "is_token (output_file_format c)"
  shows "load_lines v (write_calls c) =
         Inr (v\<lparr>output_file_name := output_file_name c,
                 output_file_unit := output_file_unit c,
                 output_file_header := output_file_header c,
                 output_file_format := output_file_format c,
                 package_flows := package_flows v @ canonical_flows (package_flows c)\<rparr>)"
proof -
  let ?v5 = "v\<lparr>output_file_name := output_file_name c,
                 output_file_unit := output_file_unit c,
                 output_file_header := output_file_header c,
                 output_file_format := output_file_format c\<rparr>"
  let ?five = "[heading c @ [CHR 0x0A],
      format_20s (''OUTPUT_FILE_NAME '' @ output_file_name c) @ [CHR 0x0A],
      format_20s ''OUTPUT_FILE_UNIT '' @ '' '' @ format_10d (output_file_unit c) @ [CHR 0x0A],
      format_20s (''OUTPUT_FILE_HEADER '' @ output_file_header c) @ [CHR 0x0A],
      format_20s (''OUTPUT_FILE_FORMAT '' @ output_file_format c) @ [CHR 0x0A]]"
  have five: "load_lines v ?five = Inr ?v5"
    by (simp only: load_lines.simps load_line_written_heading[OF assms(1)]
          load_line_written_name[OF assms(2)] load_line_written_unit
          load_line_written_header[OF assms(3)] load_line_written_format[OF assms(4)]
          sum.case)
  show ?thesis
  proof (cases "package_flows c = []")
    case True
    then have "write_calls c = ?five" by (simp add: write_calls_def)
    then show ?thesis using five True by (simp add: canonical_flows_Nil)
  next
    case False
    then have "write_calls c =
        ?five @ [(''PACKAGE_FLOWS '' @ pckgs (package_flows c)) @ [CHR 0x0A]]"
      by (simp add: write_calls_def)
    moreover have "load_lines ?v5 [(''PACKAGE_FLOWS '' @ pckgs (package_flows c)) @ [CHR 0x0A]] =
        Inr (?v5\<lparr>package_flows := package_flows ?v5 @ canonical_flows (package_flows c)\<rparr>)"
      by (simp only: load_lines.simps append_assoc load_line_written_flows sum.case)
    ultimately show ?thesis using five by (simp only: load_lines_append sum.case) simp
  qed
qed

text \<open>
  C1. Take an object whose heading is one comment line, as \<open>__init__\<close> composes it
  from a version label without line break, and whose output file name, header and
  format are single tokens. Loading the text that \<open>write_file\<close> writes succeeds, under
  any file name, and gives the same output file name, unit, header and format; the
  package flows of the loaded object are the canonical flows of the written one, so
  both have the same canonical flows. This holds for every list of package flows, in
  particular for every combination of sfr, lak and uzf in any case.
\<close>

theorem write_then_load_roundtrip:
  assumes "comment_line (heading c)"
      and "is_token (output_file_name c)"
      and "is_token (output_file_header c)"
      and "is_token (output_file_format c)"
  shows "\<exists>c'. load f (write_file c) version_type ext_attr = Inr c' \<and>
              output_file_name c' = output_file_name c \<and>
              output_file_unit c' = output_file_unit c \<and>
              output_file_header c' = output_file_header c \<and>
              output_file_format c' = output_file_format c \<and>
              package_flows c' = canonical_flows (package_flows c) \<and>
              canonical_flows (package_flows c') = canonical_flows (package_flows c)"
proof -
  let ?v = "(load_defaults f)\<lparr>output_file_name := output_file_name c,
                 output_file_unit := output_file_unit c,
                 output_file_header := output_file_header c,
                 output_file_format := output_file_format c,
                 package_flows := package_flows (load_defaults f) @
                                  canonical_flows (package_flows c)\<rparr>"
  have "load_lines (load_defaults f) (file_lines (write_file c)) = Inr ?v"
    unfolding file_lines_write_file[OF assms] by (rule load_lines_write_calls[OF assms])
  from load_result[OF this, of version_type ext_attr]
  obtain c' where c': "load f (write_file c) version_type ext_attr = Inr c'"
    "output_file_name c' = output_file_name ?v" "output_file_unit c' = output_file_unit ?v"
    "output_file_header c' = output_file_header ?v"
    "output_file_format c' = output_file_format ?v" "package_flows c' = package_flows ?v"
    by blast
  have "package_flows c' = canonical_flows (package_flows c)"
    using c'(6) by (simp add: load_defaults_no_flows)
  then show ?thesis using c' by (auto simp: canonical_flows_idem)
qed

lemma heading_comment_line:
  assumes "CHR 0x0A \<notin> set version_type" and "CHR 0x0D \<notin> set version_type"
      and "ModflowLmt_init version_type ofn ofu ofh off ext pf unitnumber filenames = Inr c"
  shows "comment_line (heading c)"
  using assms
  by (auto simp: ModflowLmt_init_def comment_line_def ftype_def list_all_iff Let_def
           split: list.splits)

lemma ex_roundtrip:
  "comment_line (heading (default_with_flows [''uzf'', ''Sfr''])) \<and>
   is_token (output_file_name (default_with_flows [''uzf'', ''Sfr''])) \<and>
   is_token (output_file_header (default_with_flows [''uzf'', ''Sfr''])) \<and>
   is_token (output_file_format (default_with_flows [''uzf'', ''Sfr'']))"
  by code_simp

lemma ex_roundtrip_values:
  "output_file_name (default_with_flows [''uzf'', ''Sfr'']) = ''mt3d_link.ftl'' \<and>
   output_file_unit (default_with_flows [''uzf'', ''Sfr'']) = 54 \<and>
   output_file_header (default_with_flows [''uzf'', ''Sfr'']) = ''extended'' \<and>
   output_file_format (default_with_flows [''uzf'', ''Sfr'']) = ''unformatted'' \<and>
   canonical_flows (package_flows (default_with_flows [''uzf'', ''Sfr''])) = [''SFR'', ''UZF'']"
  by code_simp

theorem write_then_load_roundtrip_witness:
  "\<exists>c'. load ''x.lmt'' (write_file (default_with_flows [''uzf'', ''Sfr''])) ''MODFLOW-2005'' None = Inr c' \<and>
        output_file_name c' = ''mt3d_link.ftl'' \<and> output_file_unit c' = 54 \<and>
        output_file_header c' = ''extended'' \<and> output_file_format c' = ''unformatted'' \<and>
        package_flows c' = [''SFR'', ''UZF'']"
  using write_then_load_roundtrip[OF ex_roundtrip[THEN conjunct1]
          ex_roundtrip[THEN conjunct2, THEN conjunct1]
          ex_roundtrip[THEN conjunct2, THEN conjunct2, THEN conjunct1]
          ex_roundtrip[THEN conjunct2, THEN conjunct2, THEN conjunct2],
          of "''x.lmt''" "''MODFLOW-2005''" None]
        ex_roundtrip_values
  by auto

end
